theory Spec2Isabelle
  imports Complex_Main
begin

section \<open>Data model\<close>

text \<open>
  The program is numpy code over float64 arrays. Prices are modelled as exact reals
  (no rounding, no overflow to infinity, no NaN); a two-dimensional array is the list
  of its rows. Python integers are \<open>int\<close>; a loop index that has passed the array
  constructor's sign check is a \<open>nat\<close>.

  Three things the machine does are therefore not in the model, and a statement that a
  call returns, or that a price is positive, is meant within these limits: \<open>np.exp\<close>
  underflows to \<open>0.0\<close> for a very negative exponent; Python's \<open>sigma ** 2\<close> raises
  OverflowError once \<open>sigma\<close> exceeds about \<open>1.34e154\<close> in size; and \<open>np.zeros\<close> refuses
  an array too large to allocate.
\<close>

datatype py_error = ValueError | IndexError

type_synonym matrix = "real list list"

text \<open>
  \<open>np.random\<close> is a hidden global generator. It is made explicit: the stream of
  standard-normal variates the generator will deliver, and how many of them have been
  handed out so far.
\<close>

record rng_state =
  source :: "nat \<Rightarrow> real"
  consumed :: nat

section \<open>monte\_carlo.py: simulate\_price\_paths\<close>

text \<open>
  The conversions \<open>float(S0)\<close>, \<open>float(mu)\<close>, \<open>float(sigma)\<close> and \<open>float(target)\<close>
  change nothing on an argument that is a number already, and are left out.
\<close>

text \<open>\<open>np.random.standard_normal(n)\<close>: the next \<open>n\<close> variates of the stream.\<close>

definition standard_normal :: "nat \<Rightarrow> rng_state \<Rightarrow> real list \<times> rng_state" where
  "standard_normal n g =
     (map (source g) [consumed g ..< consumed g + n], g\<lparr>consumed := consumed g + n\<rparr>)"

text \<open>\<open>np.zeros((days, sims))\<close>: numpy refuses a negative dimension with ValueError.\<close>

definition np_zeros :: "int \<Rightarrow> int \<Rightarrow> py_error + matrix" where
  "np_zeros days sims =
     (if days < 0 \<or> sims < 0 then Inl ValueError
      else Inr (replicate (nat days) (replicate (nat sims) 0)))"

text \<open>\<open>paths[0] = S0\<close>: broadcasts the scalar over row 0; IndexError when there is no row 0.\<close>

definition assign_row0 :: "matrix \<Rightarrow> real \<Rightarrow> py_error + matrix" where
  "assign_row0 paths S0 =
     (case paths of
        [] \<Rightarrow> Inl IndexError
      | r # rs \<Rightarrow> Inr (paths[0 := map (\<lambda>_. S0) r]))"

text \<open>
  \<open>paths[t-1] * np.exp((mu - 0.5 * sigma**2) * dt + sigma * np.sqrt(dt) * z)\<close>,
  elementwise over the previous row and the batch of draws, with \<open>dt = 1\<close>.
\<close>

definition dt :: real where
  "dt = 1"

definition gbm_row :: "real \<Rightarrow> real \<Rightarrow> real list \<Rightarrow> real list \<Rightarrow> real list" where
  "gbm_row mu sigma prev z =
     map2 (\<lambda>p zj. p * exp ((mu - 0.5 * sigma\<^sup>2) * dt + sigma * sqrt dt * zj)) prev z"

text \<open>
  \<open>shock_day and t == shock_day - 1\<close>: None and 0 are falsy, any other integer is
  compared with the loop index.
\<close>

definition shock_applies :: "int option \<Rightarrow> nat \<Rightarrow> bool" where
  "shock_applies shock_day t =
     (case shock_day of
        None \<Rightarrow> False
      | Some d \<Rightarrow> d \<noteq> 0 \<and> int t = d - 1)"

text \<open>\<open>paths[t] *= (1 + shock_size / 100)\<close>, in place on row \<open>t\<close>.\<close>

definition scale_row :: "real \<Rightarrow> real list \<Rightarrow> real list" where
  "scale_row shock_size row = map (\<lambda>x. x * (1 + shock_size / 100)) row"

text \<open>One iteration of \<open>for t in range(1, days)\<close> on the array and the generator.\<close>

definition loop_body ::
  "real \<Rightarrow> real \<Rightarrow> nat \<Rightarrow> real \<Rightarrow> int option \<Rightarrow> nat \<Rightarrow> matrix \<times> rng_state \<Rightarrow> matrix \<times> rng_state"
where
  "loop_body mu sigma sims shock_size shock_day t st =
     (let (paths, g) = st;
          (z, g') = standard_normal sims g;
          paths1 = paths[t := gbm_row mu sigma (paths ! (t - 1)) z];
          paths2 = (if shock_applies shock_day t
                    then paths1[t := scale_row shock_size (paths1 ! t)]
                    else paths1)
      in (paths2, g'))"

definition simulate_price_paths ::
  "rng_state \<Rightarrow> real \<Rightarrow> real \<Rightarrow> real \<Rightarrow> int \<Rightarrow> int \<Rightarrow> real \<Rightarrow> int option
     \<Rightarrow> py_error + (matrix \<times> rng_state)"
where
  "simulate_price_paths g S0 mu sigma days sims shock_size shock_day =
     (case np_zeros days sims of
        Inl e \<Rightarrow> Inl e
      | Inr paths0 \<Rightarrow>
          (case assign_row0 paths0 S0 of
             Inl e \<Rightarrow> Inl e
           | Inr paths1 \<Rightarrow>
               Inr (fold (loop_body mu sigma (nat sims) shock_size shock_day)
                      [1 ..< nat days] (paths1, g))))"

text \<open>
  The rows the loop produces, as a recursion on the day: the batch of draws of day
  \<open>t\<close> and the row of day \<open>t\<close>. Used to state what the loop computes.
\<close>

definition draws :: "rng_state \<Rightarrow> nat \<Rightarrow> nat \<Rightarrow> real list" where
  "draws g sims t =
     map (source g) [consumed g + (t - 1) * sims ..< consumed g + (t - 1) * sims + sims]"

fun path_row ::
  "rng_state \<Rightarrow> real \<Rightarrow> real \<Rightarrow> real \<Rightarrow> nat \<Rightarrow> real \<Rightarrow> int option \<Rightarrow> nat \<Rightarrow> real list"
where
  "path_row g S0 mu sigma sims shock_size shock_day 0 = replicate sims S0"
| "path_row g S0 mu sigma sims shock_size shock_day (Suc t) =
     (let row = gbm_row mu sigma (path_row g S0 mu sigma sims shock_size shock_day t)
                  (draws g sims (Suc t))
      in if shock_applies shock_day (Suc t) then scale_row shock_size row else row)"

section \<open>monte\_carlo.py: get\_price\_statistics\<close>

text \<open>
  numpy's reducers are library code outside the repository; they are modelled from their
  documented behaviour. A float64 result that is no real number (nan or an infinity)
  is \<open>None\<close>. An empty array has no mean, median or percentile: the model gives
  \<open>None\<close> there, where numpy gives nan with a warning or, for \<open>np.percentile\<close>, raises
  IndexError; no statement below is about an empty array.
\<close>

type_synonym np_float = "real option"

text \<open>\<open>np.mean(a)\<close>: the sum over the number of elements.\<close>

definition np_mean :: "real list \<Rightarrow> np_float" where
  "np_mean a = (if a = [] then None else Some (sum_list a / real (length a)))"

text \<open>
  \<open>np.median(a)\<close>: the middle element of the sorted data for an odd length, the mean of
  the two middle elements for an even length.
\<close>

definition np_median :: "real list \<Rightarrow> np_float" where
  "np_median a =
     (if a = [] then None
      else let s = sort a; n = length a; k = n div 2
           in if n mod 2 = 1 then Some (s ! k) else Some ((s ! (k - 1) + s ! k) / 2))"

text \<open>
  \<open>np.percentile(a, q)\<close> with the default method (linear): the virtual index
  \<open>(n - 1) * (q / 100)\<close> into the sorted data, its floor and the index after it (clipped
  to the last one), and the linear interpolation between the two order statistics.
\<close>

definition lerp_sorted :: "real list \<Rightarrow> real \<Rightarrow> real" where
  "lerp_sorted s v =
     (let lo = nat \<lfloor>v\<rfloor>;
          hi = min (lo + 1) (length s - 1);
          gamma = v - real lo
      in s ! lo + (s ! hi - s ! lo) * gamma)"

definition np_percentile :: "real list \<Rightarrow> real \<Rightarrow> np_float" where
  "np_percentile a q =
     (if a = [] then None
      else Some (lerp_sorted (sort a) (real (length a - 1) * (q / 100))))"

record price_stats =
  mean :: np_float
  median :: np_float
  p5 :: np_float
  p95 :: np_float

text \<open>\<open>paths[-1]\<close> raises IndexError on an array with no row.\<close>

definition get_price_statistics :: "matrix \<Rightarrow> py_error + price_stats" where
  "get_price_statistics paths =
     (case paths of
        [] \<Rightarrow> Inl IndexError
      | _ # _ \<Rightarrow>
          (let final_prices = last paths
           in Inr \<lparr>mean = np_mean final_prices,
                   median = np_median final_prices,
                   p5 = np_percentile final_prices 5,
                   p95 = np_percentile final_prices 95\<rparr>))"

section \<open>monte\_carlo.py: time\_to\_target\<close>

text \<open>
  \<open>paths.shape[1]\<close>. A list of rows with no row has lost its column count; every
  column of such an array is empty and contributes nothing, so the result is the same.
\<close>

definition ncols :: "matrix \<Rightarrow> nat" where
  "ncols paths = (case paths of [] \<Rightarrow> 0 | r # _ \<Rightarrow> length r)"

text \<open>\<open>paths[:, sim]\<close>\<close>

definition column :: "matrix \<Rightarrow> nat \<Rightarrow> real list" where
  "column paths sim = map (\<lambda>r. r ! sim) paths"

text \<open>\<open>np.where(col >= target)[0]\<close>: the indices where the comparison holds, ascending.\<close>

definition np_where_ge :: "real list \<Rightarrow> real \<Rightarrow> nat list" where
  "np_where_ge col target = filter (\<lambda>i. target \<le> col ! i) [0 ..< length col]"

text \<open>One iteration of \<open>for sim in range(paths.shape[1])\<close> on \<open>hit_days\<close>.\<close>

definition hit_body :: "matrix \<Rightarrow> real \<Rightarrow> nat \<Rightarrow> nat list \<Rightarrow> nat list" where
  "hit_body paths target sim hit_days =
     (let hits = np_where_ge (column paths sim) target
      in if length hits > 0 then hit_days @ [hits ! 0] else hit_days)"

definition time_to_target :: "matrix \<Rightarrow> real \<Rightarrow> nat list" where
  "time_to_target paths target = fold (hit_body paths target) [0 ..< ncols paths] []"

section \<open>app.py: the Sharpe ratio\<close>




section \<open>The consumers on a store of objects\<close>

text \<open>
  To state that a call leaves its argument alone, the arrays live in a store: an
  address is an index into the list of objects, and a new object is put at the end.
  \<open>paths[-1]\<close> and \<open>paths[:, sim]\<close> are views: they hold no data of their own and read
  through the address of \<open>paths\<close>.
\<close>

datatype obj =
  FloatMatrix matrix
  | FloatArray "real list"
  | BoolArray "bool list"
  | IntArray "nat list"
  | PyList "nat list"

type_synonym store = "obj list"

datatype view = RowView nat nat | ColView nat nat

definition alloc :: "obj \<Rightarrow> store \<Rightarrow> nat \<times> store" where
  "alloc v s = (length s, s @ [v])"

definition matrix_at :: "store \<Rightarrow> nat \<Rightarrow> matrix" where
  "matrix_at s p = (case s ! p of FloatMatrix m \<Rightarrow> m | _ \<Rightarrow> [])"

definition floats_at :: "store \<Rightarrow> nat \<Rightarrow> real list" where
  "floats_at s p = (case s ! p of FloatArray xs \<Rightarrow> xs | _ \<Rightarrow> [])"

definition bools_at :: "store \<Rightarrow> nat \<Rightarrow> bool list" where
  "bools_at s p = (case s ! p of BoolArray bs \<Rightarrow> bs | _ \<Rightarrow> [])"

definition ints_at :: "store \<Rightarrow> nat \<Rightarrow> nat list" where
  "ints_at s p = (case s ! p of IntArray ns \<Rightarrow> ns | PyList ns \<Rightarrow> ns | _ \<Rightarrow> [])"

fun read_view :: "store \<Rightarrow> view \<Rightarrow> real list" where
  "read_view s (RowView p i) = matrix_at s p ! i"
| "read_view s (ColView p j) = column (matrix_at s p) j"

text \<open>\<open>np.mean\<close> only reads.\<close>

definition np_mean_st :: "view \<Rightarrow> store \<Rightarrow> np_float \<times> store" where
  "np_mean_st v s = (np_mean (read_view s v), s)"

text \<open>
  \<open>np.median\<close> and \<open>np.percentile\<close> (with \<open>overwrite_input\<close> left at False) copy the
  data into an array of their own and order that copy in place.
\<close>

definition sorted_copy :: "view \<Rightarrow> store \<Rightarrow> nat \<times> store" where
  "sorted_copy v s =
     (let (a, s1) = alloc (FloatArray (read_view s v)) s
      in (a, s1[a := FloatArray (sort (floats_at s1 a))]))"

definition np_median_st :: "view \<Rightarrow> store \<Rightarrow> np_float \<times> store" where
  "np_median_st v s = (let (a, s1) = sorted_copy v s in (np_median (floats_at s1 a), s1))"

definition np_percentile_st :: "view \<Rightarrow> real \<Rightarrow> store \<Rightarrow> np_float \<times> store" where
  "np_percentile_st v q s =
     (let (a, s1) = sorted_copy v s in (np_percentile (floats_at s1 a) q, s1))"

definition get_price_statistics_st :: "nat \<Rightarrow> store \<Rightarrow> (py_error + price_stats) \<times> store" where
  "get_price_statistics_st paths s =
     (case matrix_at s paths of
        [] \<Rightarrow> (Inl IndexError, s)
      | _ # _ \<Rightarrow>
          (let final_prices = RowView paths (length (matrix_at s paths) - 1);
               (m, s1) = np_mean_st final_prices s;
               (md, s2) = np_median_st final_prices s1;
               (lo, s3) = np_percentile_st final_prices 5 s2;
               (hi, s4) = np_percentile_st final_prices 95 s3
           in (Inr \<lparr>mean = m, median = md, p5 = lo, p95 = hi\<rparr>, s4)))"

text \<open>
  One iteration of the loop of \<open>time_to_target\<close>: the comparison and \<open>np.where\<close> each
  build a new array, and \<open>append\<close> changes the list \<open>hit_days\<close> in place.
\<close>

definition hit_body_st :: "nat \<Rightarrow> real \<Rightarrow> nat \<Rightarrow> nat \<Rightarrow> store \<Rightarrow> store" where
  "hit_body_st paths target hit_days sim s =
     (let col = read_view s (ColView paths sim);
          (mask, s1) = alloc (BoolArray (map (\<lambda>x. target \<le> x) col)) s;
          (hits, s2) = alloc (IntArray (filter (\<lambda>i. bools_at s1 mask ! i)
                                          [0 ..< length (bools_at s1 mask)])) s1
      in if length (ints_at s2 hits) > 0
         then s2[hit_days := PyList (ints_at s2 hit_days @ [ints_at s2 hits ! 0])]
         else s2)"

definition time_to_target_st :: "nat \<Rightarrow> real \<Rightarrow> store \<Rightarrow> nat list \<times> store" where
  "time_to_target_st paths target s =
     (let (hit_days, s0) = alloc (PyList []) s;
          s1 = fold (hit_body_st paths target hit_days) [0 ..< ncols (matrix_at s paths)] s0
      in (ints_at s1 hit_days, s1))"

text \<open>Every object of the first store is still there, unchanged, in the second.\<close>

definition kept :: "store \<Rightarrow> store \<Rightarrow> bool" where
  "kept s s' \<longleftrightarrow> length s \<le> length s' \<and> (\<forall>a < length s. s' ! a = s ! a)"

section \<open>What the loop computes\<close>

lemma length_draws: "length (draws g sims t) = sims"
  by (simp add: draws_def)

lemma length_path_row:
  "length (path_row g S0 mu sigma sims shock_size shock_day t) = sims"
  by (induction t) (simp_all add: gbm_row_def scale_row_def length_draws Let_def)

lemma standard_normal_draws:
  "standard_normal sims (g\<lparr>consumed := consumed g + k * sims\<rparr>) =
     (draws g sims (Suc k), g\<lparr>consumed := consumed g + Suc k * sims\<rparr>)"
  by (simp add: standard_normal_def draws_def add.commute add.left_commute)

lemma loop_body_row:
  assumes "n < length paths" "0 < n"
    and "paths = map (path_row g S0 mu sigma sims shock_size shock_day) [0 ..< n] @ rest"
  shows "loop_body mu sigma sims shock_size shock_day n
           (paths, g\<lparr>consumed := consumed g + (n - 1) * sims\<rparr>) =
         (map (path_row g S0 mu sigma sims shock_size shock_day) [0 ..< Suc n] @ tl rest,
          g\<lparr>consumed := consumed g + n * sims\<rparr>)"
proof -
  obtain k where k: "n = Suc k" using assms(2) by (cases n) auto
  let ?row = "path_row g S0 mu sigma sims shock_size shock_day"
  have len: "length (map ?row [0 ..< n]) = n" by simp
  have prev: "paths ! (n - 1) = ?row k"
    using assms(3) k by (simp add: nth_append del: upt_Suc)
  have rest: "rest \<noteq> []" using assms(1,3) by auto
  then obtain r rs where r: "rest = r # rs" by (cases rest) auto
  have upd: "\<And>x. paths[n := x] = map ?row [0 ..< n] @ x # rs"
    using assms(3) r by (simp add: list_update_append del: upt_Suc)
  have nth: "\<And>x. (map ?row [0 ..< n] @ x # rs) ! n = x"
    using nth_append_length[of "map ?row [0 ..< n]"] by (simp del: upt_Suc)
  have upd2: "\<And>x y. (map ?row [0 ..< n] @ x # rs)[n := y] = map ?row [0 ..< n] @ y # rs"
    by (simp add: list_update_append del: upt_Suc)
  have sn: "standard_normal sims (g\<lparr>consumed := consumed g + (n - 1) * sims\<rparr>) =
     (draws g sims n, g\<lparr>consumed := consumed g + n * sims\<rparr>)"
    using standard_normal_draws[of sims g k] k by simp
  show ?thesis
    unfolding loop_body_def Let_def split_conv sn upd prev nth upd2
    using k r by (simp add: Let_def del: upt_Suc path_row.simps) (simp add: Let_def)
qed

lemma fold_loop_body:
  assumes "paths = replicate sims S0 # rest0"
  shows "n \<le> length rest0 \<Longrightarrow>
     fold (loop_body mu sigma sims shock_size shock_day) [1 ..< Suc n] (paths, g) =
       (map (path_row g S0 mu sigma sims shock_size shock_day) [0 ..< Suc n] @ drop n rest0,
        g\<lparr>consumed := consumed g + n * sims\<rparr>)"
proof (induction n)
  case 0
  then show ?case using assms by simp
next
  case (Suc n)
  let ?row = "path_row g S0 mu sigma sims shock_size shock_day"
  have split: "[1 ..< Suc (Suc n)] = [1 ..< Suc n] @ [Suc n]" by simp
  have ih: "fold (loop_body mu sigma sims shock_size shock_day) [1 ..< Suc n] (paths, g) =
       (map ?row [0 ..< Suc n] @ drop n rest0, g\<lparr>consumed := consumed g + n * sims\<rparr>)"
    using Suc by simp
  have tl: "tl (drop n rest0) = drop (Suc n) rest0" by (simp add: drop_Suc tl_drop)
  have "loop_body mu sigma sims shock_size shock_day (Suc n)
           (map ?row [0 ..< Suc n] @ drop n rest0, g\<lparr>consumed := consumed g + (Suc n - 1) * sims\<rparr>) =
         (map ?row [0 ..< Suc (Suc n)] @ tl (drop n rest0),
          g\<lparr>consumed := consumed g + Suc n * sims\<rparr>)"
    by (rule loop_body_row) (use Suc.prems in simp_all)
  then show ?case
    unfolding split fold_append comp_apply ih by (simp add: tl del: upt_Suc)
qed

lemma simulate_raises:
  "days < 0 \<or> sims < 0 \<Longrightarrow>
     simulate_price_paths g S0 mu sigma days sims shock_size shock_day = Inl ValueError"
  "days = 0 \<Longrightarrow> 0 \<le> sims \<Longrightarrow>
     simulate_price_paths g S0 mu sigma days sims shock_size shock_day = Inl IndexError"
  by (auto simp add: simulate_price_paths_def np_zeros_def assign_row0_def)

lemma simulate_rows:
  assumes "1 \<le> days" "0 \<le> sims"
  shows "simulate_price_paths g S0 mu sigma days sims shock_size shock_day =
           Inr (map (path_row g S0 mu sigma (nat sims) shock_size shock_day) [0 ..< nat days],
                g\<lparr>consumed := consumed g + (nat days - 1) * nat sims\<rparr>)"
proof -
  obtain n where n: "nat days = Suc n" using assms(1) by (cases "nat days") auto
  have z: "np_zeros days sims = Inr (replicate (Suc n) (replicate (nat sims) 0))"
    using assms n by (simp add: np_zeros_def)
  have a: "assign_row0 (replicate (Suc n) (replicate (nat sims) 0)) S0 =
             Inr (replicate (nat sims) S0 # replicate n (replicate (nat sims) 0))"
    by (simp add: assign_row0_def map_replicate_const)
  have f: "fold (loop_body mu sigma (nat sims) shock_size shock_day) [1 ..< Suc n]
             (replicate (nat sims) S0 # replicate n (replicate (nat sims) 0), g) =
           (map (path_row g S0 mu sigma (nat sims) shock_size shock_day) [0 ..< Suc n]
              @ drop n (replicate n (replicate (nat sims) 0)),
            g\<lparr>consumed := consumed g + n * nat sims\<rparr>)"
    by (rule fold_loop_body[OF refl]) simp
  show ?thesis
    unfolding simulate_price_paths_def z a n sum.case f by simp
qed

lemma shock_applies_None: "\<not> shock_applies None t"
  by (simp add: shock_applies_def)

lemma path_row_no_shock:
  "(\<And>k. 1 \<le> k \<Longrightarrow> k \<le> t \<Longrightarrow> \<not> shock_applies shock_day k) \<Longrightarrow>
     path_row g S0 mu sigma sims shock_size shock_day t =
     path_row g S0 mu sigma sims shock_size None t"
proof (induction t)
  case 0
  show ?case by simp
next
  case (Suc t)
  have "\<not> shock_applies shock_day (Suc t)" using Suc.prems by simp
  moreover have "path_row g S0 mu sigma sims shock_size shock_day t =
     path_row g S0 mu sigma sims shock_size None t"
    using Suc by simp
  ultimately show ?case by (simp add: shock_applies_None)
qed

lemma gbm_row_scale:
  "gbm_row mu sigma (scale_row shock_size prev) z =
     scale_row shock_size (gbm_row mu sigma prev z)"
  by (simp add: gbm_row_def scale_row_def zip_map1 case_prod_unfold mult.assoc mult.commute mult.left_commute)

lemma path_row_shock:
  assumes "2 \<le> d"
  shows "path_row g S0 mu sigma sims shock_size (Some d) t =
     (if int t < d - 1 then path_row g S0 mu sigma sims shock_size None t
      else scale_row shock_size (path_row g S0 mu sigma sims shock_size None t))"
proof (induction t)
  case 0
  show ?case using assms by simp
next
  case (Suc t)
  consider "int (Suc t) < d - 1" | "int (Suc t) = d - 1" | "d - 1 < int (Suc t)" by linarith
  then show ?case
  proof cases
    case 1
    then show ?thesis using Suc assms by (simp add: shock_applies_def)
  next
    case 2
    then show ?thesis using Suc assms by (simp add: shock_applies_def)
  next
    case 3
    then have "\<not> int t < d - 1" by simp
    then show ?thesis using Suc assms 3 by (simp add: shock_applies_def gbm_row_scale)
  qed
qed

lemma gbm_row_pos:
  "(\<And>x. x \<in> set prev \<Longrightarrow> 0 < x) \<Longrightarrow> y \<in> set (gbm_row mu sigma prev z) \<Longrightarrow> 0 < y"
  by (auto simp add: gbm_row_def dest!: set_zip_leftD)

lemma scale_row_pos:
  "0 < 1 + shock_size / 100 \<Longrightarrow> (\<And>x. x \<in> set row \<Longrightarrow> 0 < x) \<Longrightarrow>
     y \<in> set (scale_row shock_size row) \<Longrightarrow> 0 < y"
  by (auto simp add: scale_row_def)

lemma path_row_pos:
  assumes "0 < S0"
    and "\<And>k. 1 \<le> k \<Longrightarrow> k \<le> t \<Longrightarrow> shock_applies shock_day k \<Longrightarrow> 0 < 1 + shock_size / 100"
  shows "y \<in> set (path_row g S0 mu sigma sims shock_size shock_day t) \<Longrightarrow> 0 < y"
  using assms(2)
proof (induction t arbitrary: y)
  case 0
  then show ?case using assms(1) by simp
next
  case (Suc t)
  let ?prev = "path_row g S0 mu sigma sims shock_size shock_day t"
  let ?row = "gbm_row mu sigma ?prev (draws g sims (Suc t))"
  have prev: "\<And>x. x \<in> set ?prev \<Longrightarrow> 0 < x"
    using Suc.IH Suc.prems(2) by (metis le_Suc_eq)
  have row: "\<And>x. x \<in> set ?row \<Longrightarrow> 0 < x"
    using gbm_row_pos prev by blast
  show ?case
  proof (cases "shock_applies shock_day (Suc t)")
    case True
    then have "0 < 1 + shock_size / 100" using Suc.prems(2)[of "Suc t"] by simp
    then show ?thesis using Suc.prems(1) True row scale_row_pos[of shock_size ?row y]
      by (simp add: Let_def)
  next
    case False
    then show ?thesis using Suc.prems(1) row by (simp add: Let_def)
  qed
qed

lemma gbm_row_sigma0:
  "length z = n \<Longrightarrow> gbm_row mu 0 (replicate n c) z = replicate n (c * exp mu)"
proof (induction z arbitrary: n)
  case Nil
  then show ?case by (simp add: gbm_row_def)
next
  case (Cons a z)
  then obtain k where k: "n = Suc k" "length z = k" by (cases n) auto
  then show ?case using Cons.IH[of k] by (simp add: gbm_row_def dt_def)
qed

lemma scale_row_replicate:
  "scale_row shock_size (replicate n c) = replicate n (c * (1 + shock_size / 100))"
  by (simp add: scale_row_def)

lemma path_row_sigma0_const:
  "\<exists>c. path_row g S0 mu 0 sims shock_size shock_day t = replicate sims c"
proof (induction t)
  case 0
  show ?case by simp
next
  case (Suc t)
  then obtain c where "path_row g S0 mu 0 sims shock_size shock_day t = replicate sims c" ..
  then show ?case
    by (simp add: Let_def gbm_row_sigma0 length_draws scale_row_replicate)
qed

lemma path_row_sigma0_drift:
  "path_row g S0 mu 0 sims shock_size None t = replicate sims (S0 * exp mu ^ t)"
  by (induction t) (simp_all add: Let_def gbm_row_sigma0 length_draws shock_applies_None mult.assoc mult.commute mult.left_commute)

section \<open>Claims about simulate\_price\_paths\<close>

text \<open>Unfolding the whole call on a concrete input.\<close>

lemmas simulate_eval =
  simulate_price_paths_def np_zeros_def assign_row0_def loop_body_def standard_normal_def
  gbm_row_def shock_applies_def scale_row_def dt_def upt_rec numeral_eq_Suc

text \<open>
  Claim C9. For every \<open>mu\<close>, \<open>sigma\<close>, \<open>shock_size\<close> and \<open>shock_day\<close>, a call with
  \<open>days \<ge> 1\<close> (and a non-negative \<open>sims\<close>, which \<open>np.zeros\<close> needs) returns a matrix
  whose row 0 holds \<open>S0\<close> in every column: the loop starts at row 1, so the shock never
  touches row 0. With \<open>days = 1\<close> the result is the single row of \<open>S0\<close> and the
  generator is returned as it was given: no variate is drawn.
\<close>

theorem row0_is_S0_never_shocked:
  "1 \<le> days \<Longrightarrow> 0 \<le> sims \<Longrightarrow>
     (\<exists>m g'. simulate_price_paths g S0 mu sigma days sims shock_size shock_day = Inr (m, g')
        \<and> length m = nat days \<and> m ! 0 = replicate (nat sims) S0) \<and>
     (days = 1 \<longrightarrow>
        simulate_price_paths g S0 mu sigma days sims shock_size shock_day =
          Inr ([replicate (nat sims) S0], g))"
proof -
  assume a: "1 \<le> days" "0 \<le> sims"
  have pos: "0 < nat days" using a by simp
  have "map (path_row g S0 mu sigma (nat sims) shock_size shock_day) [0 ..< nat days] ! 0 =
          replicate (nat sims) S0"
    using pos by (simp del: upt_Suc)
  then show ?thesis
    using simulate_rows[OF a, of g S0 mu sigma shock_size shock_day] by auto
qed

theorem row0_is_S0_never_shocked_witness:
  "(1::int) \<le> 1 \<and> (0::int) \<le> 3 \<and>
   simulate_price_paths \<lparr>source = (\<lambda>i. real i), consumed = 7\<rparr> 100 (1/2) (1/4) 1 3 50 (Some 1) =
     Inr ([[100, 100, 100]], \<lparr>source = (\<lambda>i. real i), consumed = 7\<rparr>) \<and>
   (1::int) \<le> 2 \<and> (0::int) \<le> 2 \<and>
   simulate_price_paths \<lparr>source = (\<lambda>i. real i), consumed = 0\<rparr> 100 (1/2) 1 2 2 50 (Some 2) =
     Inr ([[100, 100], [150, 150 * exp 1]], \<lparr>source = (\<lambda>i. real i), consumed = 2\<rparr>)"
proof -
  have e: "simulate_price_paths \<lparr>source = (\<lambda>i. real i), consumed = 0\<rparr> 100 (1/2) 1 2 2 50 (Some 2) =
     Inr ([[100, 100], [150, 150 * exp 1]], \<lparr>source = (\<lambda>i. real i), consumed = 2\<rparr>)"
    by (simp add: simulate_eval)
  show ?thesis
    using row0_is_S0_never_shocked
      [of 1 3 "\<lparr>source = (\<lambda>i. real i), consumed = 7\<rparr>" 100 "1/2" "1/4" 50 "Some 1"]
      row0_is_S0_never_shocked
      [of 2 2 "\<lparr>source = (\<lambda>i. real i), consumed = 0\<rparr>" 100 "1/2" 1 50 "Some 2"]
    by (simp add: e numeral_eq_Suc)
qed

text \<open>
  Claim C6. A \<open>shock_day\<close> below 1 or above \<open>days\<close> changes nothing: the call returns
  exactly what it returns with \<open>shock_day = None\<close> on the same generator (the same matrix
  and the same generator state, or the same error), and with \<open>days \<ge> 1\<close> and a
  non-negative \<open>sims\<close> it does return a matrix.
\<close>

theorem shock_day_out_of_range_ignored:
  "d < 1 \<or> days < d \<Longrightarrow>
     simulate_price_paths g S0 mu sigma days sims shock_size (Some d) =
       simulate_price_paths g S0 mu sigma days sims shock_size None \<and>
     (1 \<le> days \<and> 0 \<le> sims \<longrightarrow>
        (\<exists>m g'. simulate_price_paths g S0 mu sigma days sims shock_size (Some d) = Inr (m, g')))"
proof -
  assume out: "d < 1 \<or> days < d"
  show ?thesis
  proof (cases "1 \<le> days \<and> 0 \<le> sims")
    case True
    then have a: "1 \<le> days" "0 \<le> sims" by simp_all
    have "path_row g S0 mu sigma (nat sims) shock_size (Some d) t =
          path_row g S0 mu sigma (nat sims) shock_size None t" if "t < nat days" for t
    proof (rule path_row_no_shock)
      fix k assume "1 \<le> k" "k \<le> t"
      then show "\<not> shock_applies (Some d) k"
        using out that by (auto simp add: shock_applies_def)
    qed
    then have "map (path_row g S0 mu sigma (nat sims) shock_size (Some d)) [0 ..< nat days] =
               map (path_row g S0 mu sigma (nat sims) shock_size None) [0 ..< nat days]"
      by simp
    then show ?thesis
      using simulate_rows[OF a, of g S0 mu sigma shock_size "Some d"]
        simulate_rows[OF a, of g S0 mu sigma shock_size None] by simp
  next
    case False
    then consider "days < 0 \<or> sims < 0" | "days = 0" "0 \<le> sims" by linarith
    then show ?thesis
    proof cases
      case 1
      then show ?thesis using False by (auto simp add: simulate_raises(1))
    next
      case 2
      then show ?thesis using False by (auto simp add: simulate_raises(2))
    qed
  qed
qed

theorem shock_day_out_of_range_ignored_witness:
  "((0::int) < 1 \<or> (3::int) < 0) \<and> ((-2::int) < 1 \<or> (3::int) < -2) \<and> ((4::int) < 1 \<or> (3::int) < 4) \<and>
   simulate_price_paths \<lparr>source = (\<lambda>i. 0), consumed = 0\<rparr> 100 0 0 3 2 50 (Some 0) =
     Inr ([[100, 100], [100, 100], [100, 100]], \<lparr>source = (\<lambda>i. 0), consumed = 4\<rparr>) \<and>
   simulate_price_paths \<lparr>source = (\<lambda>i. 0), consumed = 0\<rparr> 100 0 0 3 2 50 (Some (-2)) =
     Inr ([[100, 100], [100, 100], [100, 100]], \<lparr>source = (\<lambda>i. 0), consumed = 4\<rparr>) \<and>
   simulate_price_paths \<lparr>source = (\<lambda>i. 0), consumed = 0\<rparr> 100 0 0 3 2 50 (Some 4) =
     Inr ([[100, 100], [100, 100], [100, 100]], \<lparr>source = (\<lambda>i. 0), consumed = 4\<rparr>)"
proof -
  have n: "simulate_price_paths \<lparr>source = (\<lambda>i. 0), consumed = 0\<rparr> 100 0 0 3 2 50 None =
     Inr ([[100, 100], [100, 100], [100, 100]], \<lparr>source = (\<lambda>i. 0), consumed = 4\<rparr>)"
    by (simp add: simulate_eval)
  show ?thesis
    using shock_day_out_of_range_ignored[of 0 3 "\<lparr>source = (\<lambda>i. 0), consumed = 0\<rparr>" 100 0 0 2 50]
      shock_day_out_of_range_ignored[of "-2" 3 "\<lparr>source = (\<lambda>i. 0), consumed = 0\<rparr>" 100 0 0 2 50]
      shock_day_out_of_range_ignored[of 4 3 "\<lparr>source = (\<lambda>i. 0), consumed = 0\<rparr>" 100 0 0 2 50]
    by (simp add: n)
qed

text \<open>
  Claim C1, as stated, fails twice. With \<open>shock_day = 1\<close> row 0 is not multiplied: the
  loop never visits row 0, and the shocked and the unshocked matrix coincide. With
  \<open>shock_day = 2\<close> and three days the rows after the shocked row differ from the
  unshocked ones as well, since each row is computed from the row before it.
\<close>

theorem shock_invariant_counterexample:
  "simulate_price_paths \<lparr>source = (\<lambda>i. 0), consumed = 0\<rparr> 100 0 0 2 1 50 (Some 1) =
     Inr ([[100], [100]], \<lparr>source = (\<lambda>i. 0), consumed = 1\<rparr>) \<and>
   simulate_price_paths \<lparr>source = (\<lambda>i. 0), consumed = 0\<rparr> 100 0 0 2 1 50 None =
     Inr ([[100], [100]], \<lparr>source = (\<lambda>i. 0), consumed = 1\<rparr>) \<and>
   [[100], [100 :: real]] ! (1 - 1) ! 0 \<noteq> [[100], [100]] ! (1 - 1) ! 0 * (1 + 50 / 100) \<and>
   simulate_price_paths \<lparr>source = (\<lambda>i. 0), consumed = 0\<rparr> 100 0 0 3 1 50 (Some 2) =
     Inr ([[100], [150], [150]], \<lparr>source = (\<lambda>i. 0), consumed = 2\<rparr>) \<and>
   simulate_price_paths \<lparr>source = (\<lambda>i. 0), consumed = 0\<rparr> 100 0 0 3 1 50 None =
     Inr ([[100], [100], [100]], \<lparr>source = (\<lambda>i. 0), consumed = 2\<rparr>) \<and>
   [[100], [150], [150 :: real]] ! 2 \<noteq> [[100], [100], [100]] ! 2"
  by (simp add: simulate_eval)

text \<open>
  Claim C1, amended. For \<open>2 \<le> d \<le> days\<close> and the same generator, the shocked and the
  unshocked call both return, with the same generator state; the rows before row
  \<open>d - 1\<close> are equal, and row \<open>d - 1\<close> and every later row of the shocked matrix is the
  unshocked row multiplied by \<open>1 + shock_size / 100\<close>. In particular
  \<open>matrix[d-1][j] = unshocked[d-1][j] * (1 + shock_size / 100)\<close> for every column.
\<close>

theorem shock_scales_rows_from_shock_day:
  "2 \<le> d \<Longrightarrow> d \<le> days \<Longrightarrow> 0 \<le> sims \<Longrightarrow>
     (\<exists>ms mu' g'.
        simulate_price_paths g S0 mu sigma days sims shock_size (Some d) = Inr (ms, g') \<and>
        simulate_price_paths g S0 mu sigma days sims shock_size None = Inr (mu', g') \<and>
        length ms = nat days \<and> length mu' = nat days \<and>
        (\<forall>t < nat days. ms ! t =
           (if int t < d - 1 then mu' ! t else scale_row shock_size (mu' ! t))) \<and>
        (\<forall>j < nat sims. ms ! nat (d - 1) ! j = mu' ! nat (d - 1) ! j * (1 + shock_size / 100)))"
proof -
  assume d: "2 \<le> d" "d \<le> days" and s: "0 \<le> sims"
  have a: "1 \<le> days" using d by simp
  let ?rs = "path_row g S0 mu sigma (nat sims) shock_size (Some d)"
  let ?ru = "path_row g S0 mu sigma (nat sims) shock_size None"
  let ?g' = "g\<lparr>consumed := consumed g + (nat days - 1) * nat sims\<rparr>"
  have rows: "map ?rs [0 ..< nat days] ! t =
      (if int t < d - 1 then map ?ru [0 ..< nat days] ! t
       else scale_row shock_size (map ?ru [0 ..< nat days] ! t))" if "t < nat days" for t
    using that path_row_shock[OF d(1), of g S0 mu sigma "nat sims" shock_size t]
    by (simp del: upt_Suc)
  have dd: "nat (d - 1) < nat days" "\<not> int (nat (d - 1)) < d - 1" using d by simp_all
  have cell: "map ?rs [0 ..< nat days] ! nat (d - 1) ! j =
      map ?ru [0 ..< nat days] ! nat (d - 1) ! j * (1 + shock_size / 100)" if "j < nat sims" for j
  proof -
    have "j < length (?ru (nat (d - 1)))" using that by (simp add: length_path_row)
    then show ?thesis
      using rows[OF dd(1)] dd by (simp add: scale_row_def del: upt_Suc)
  qed
  show ?thesis
    using simulate_rows[OF a s, of g S0 mu sigma shock_size "Some d"]
      simulate_rows[OF a s, of g S0 mu sigma shock_size None] rows cell
    by (intro exI[of _ "map ?rs [0 ..< nat days]"] exI[of _ "map ?ru [0 ..< nat days]"] exI[of _ ?g'])
       (simp del: upt_Suc)
qed

theorem shock_scales_rows_from_shock_day_witness:
  "(2::int) \<le> 2 \<and> (2::int) \<le> 3 \<and> (0::int) \<le> 1 \<and>
   simulate_price_paths \<lparr>source = (\<lambda>i. 0), consumed = 0\<rparr> 100 0 0 3 1 50 (Some 2) =
     Inr ([[100], [150], [150]], \<lparr>source = (\<lambda>i. 0), consumed = 2\<rparr>) \<and>
   simulate_price_paths \<lparr>source = (\<lambda>i. 0), consumed = 0\<rparr> 100 0 0 3 1 50 None =
     Inr ([[100], [100], [100]], \<lparr>source = (\<lambda>i. 0), consumed = 2\<rparr>) \<and>
   [[100], [150], [150 :: real]] ! nat (2 - 1) ! 0 = [[100], [100], [100]] ! nat (2 - 1) ! 0 * (1 + 50 / 100)"
  using shock_scales_rows_from_shock_day
    [of 2 3 1 "\<lparr>source = (\<lambda>i. 0), consumed = 0\<rparr>" 100 0 0 50]
  by (simp add: simulate_eval)

text \<open>
  Claim C2, as stated, fails: the code checks nothing. A negative or zero \<open>S0\<close> is
  copied into the matrix, and \<open>sims = 0\<close> gives a matrix of empty rows.
\<close>

theorem invalid_input_returns_matrix_counterexample:
  "simulate_price_paths \<lparr>source = (\<lambda>i. 0), consumed = 0\<rparr> (-5) 0 0 2 1 0 None =
     Inr ([[-5], [-5]], \<lparr>source = (\<lambda>i. 0), consumed = 1\<rparr>) \<and>
   simulate_price_paths \<lparr>source = (\<lambda>i. 0), consumed = 0\<rparr> 0 0 0 2 1 0 None =
     Inr ([[0], [0]], \<lparr>source = (\<lambda>i. 0), consumed = 1\<rparr>) \<and>
   simulate_price_paths \<lparr>source = (\<lambda>i. 0), consumed = 0\<rparr> 100 0 0 2 0 0 None =
     Inr ([[], []], \<lparr>source = (\<lambda>i. 0), consumed = 0\<rparr>)"
  by (simp add: simulate_eval)

text \<open>
  Claim C2, amended. Of the invalid inputs the claim lists, those that do fail are a
  non-positive \<open>days\<close> and a negative \<open>sims\<close>: the call then ends in an error and
  returns no matrix. A negative \<open>days\<close> or \<open>sims\<close> is refused by \<open>np.zeros\<close> with
  ValueError; with \<open>days = 0\<close> the assignment to row 0 finds no row.
\<close>

theorem simulate_fails_on_bad_array_shape:
  "days \<le> 0 \<or> sims < 0 \<Longrightarrow>
     (\<exists>e. simulate_price_paths g S0 mu sigma days sims shock_size shock_day = Inl e) \<and>
     (days < 0 \<or> sims < 0 \<longrightarrow>
        simulate_price_paths g S0 mu sigma days sims shock_size shock_day = Inl ValueError)"
proof -
  assume "days \<le> 0 \<or> sims < 0"
  then consider "days < 0 \<or> sims < 0" | "days = 0" "0 \<le> sims" by linarith
  then show ?thesis
  proof cases
    case 1
    then show ?thesis
      using simulate_raises(1)[OF 1, of g S0 mu sigma shock_size shock_day] by simp
  next
    case 2
    then show ?thesis
      using simulate_raises(2)[OF 2, of g S0 mu sigma shock_size shock_day] by simp
  qed
qed

theorem simulate_fails_on_bad_array_shape_witness:
  "((-1 :: int) \<le> 0 \<or> (3 :: int) < 0) \<and> ((3 :: int) \<le> 0 \<or> (-1 :: int) < 0) \<and>
   ((0 :: int) \<le> 0 \<or> (3 :: int) < 0) \<and>
   simulate_price_paths \<lparr>source = (\<lambda>i. 0), consumed = 0\<rparr> 100 0 0 (-1) 3 0 None = Inl ValueError \<and>
   simulate_price_paths \<lparr>source = (\<lambda>i. 0), consumed = 0\<rparr> 100 0 0 3 (-1) 0 None = Inl ValueError \<and>
   (\<exists>e. simulate_price_paths \<lparr>source = (\<lambda>i. 0), consumed = 0\<rparr> 100 0 0 0 3 0 None = Inl e)"
  using simulate_fails_on_bad_array_shape
      [of "-1" 3 "\<lparr>source = (\<lambda>i. 0), consumed = 0\<rparr>" 100 0 0 0 None]
    simulate_fails_on_bad_array_shape
      [of 3 "-1" "\<lparr>source = (\<lambda>i. 0), consumed = 0\<rparr>" 100 0 0 0 None]
    simulate_fails_on_bad_array_shape
      [of 0 3 "\<lparr>source = (\<lambda>i. 0), consumed = 0\<rparr>" 100 0 0 0 None]
  by simp

text \<open>
  Claim C3, as stated, fails: with \<open>shock_size = -100\<close> applied on day 2 the valid input
  \<open>S0 = 100, days = 2, sims = 1\<close> gives a row of zeros.
\<close>

theorem all_entries_positive_counterexample:
  "(1::int) \<le> 2 \<and> (1::int) \<le> 1 \<and> (0::real) < 100 \<and>
   simulate_price_paths \<lparr>source = (\<lambda>i. 0), consumed = 0\<rparr> 100 0 0 2 1 (-100) (Some 2) =
     Inr ([[100], [0]], \<lparr>source = (\<lambda>i. 0), consumed = 1\<rparr>) \<and>
   \<not> (0::real) < [[100], [0]] ! 1 ! 0"
  by (simp add: simulate_eval)

text \<open>
  Claim C3, amended. For \<open>days \<ge> 1\<close>, \<open>sims \<ge> 1\<close> and \<open>S0 > 0\<close>, whatever the shock
  parameters are, the call returns a matrix of \<open>days\<close> rows of \<open>sims\<close> entries each,
  with \<open>S0\<close> in every column of row 0. In exact arithmetic every entry is strictly
  positive provided \<open>shock_size > -100\<close> or the shock is applied on no day of the loop.
  (On float64 a very negative exponent makes \<open>np.exp\<close> return \<open>0.0\<close>, which is outside
  this statement.)
\<close>

theorem shape_day0_and_positive:
  "1 \<le> days \<Longrightarrow> 1 \<le> sims \<Longrightarrow> 0 < S0 \<Longrightarrow>
     (\<exists>m g'. simulate_price_paths g S0 mu sigma days sims shock_size shock_day = Inr (m, g') \<and>
        length m = nat days \<and>
        (\<forall>r \<in> set m. length r = nat sims) \<and>
        (\<forall>j < nat sims. m ! 0 ! j = S0) \<and>
        (- 100 < shock_size \<or> (\<forall>t \<in> {1 ..< nat days}. \<not> shock_applies shock_day t) \<longrightarrow>
           (\<forall>r \<in> set m. \<forall>x \<in> set r. 0 < x)))"
proof -
  assume a: "1 \<le> days" and b: "1 \<le> sims" and S0: "0 < S0"
  let ?row = "path_row g S0 mu sigma (nat sims) shock_size shock_day"
  let ?m = "map ?row [0 ..< nat days]"
  let ?g' = "g\<lparr>consumed := consumed g + (nat days - 1) * nat sims\<rparr>"
  have s: "0 \<le> sims" using b by simp
  have sim: "simulate_price_paths g S0 mu sigma days sims shock_size shock_day = Inr (?m, ?g')"
    by (rule simulate_rows[OF a s])
  have n: "length ?m = nat days" by simp
  have len: "\<forall>r \<in> set ?m. length r = nat sims"
    by (simp add: length_path_row del: upt_Suc)
  have "0 < nat days" using a by simp
  then have "?m ! 0 = replicate (nat sims) S0" by (simp del: upt_Suc)
  then have r0: "\<forall>j < nat sims. ?m ! 0 ! j = S0" by simp
  have allpos: "\<forall>r \<in> set ?m. \<forall>x \<in> set r. 0 < x"
    if sh: "- 100 < shock_size \<or> (\<forall>t \<in> {1 ..< nat days}. \<not> shock_applies shock_day t)"
  proof -
    have "0 < x" if t: "t < nat days" and x: "x \<in> set (?row t)" for t x
    proof (rule path_row_pos[OF S0 _ x])
      fix k assume k: "1 \<le> k" "k \<le> t" "shock_applies shock_day k"
      then have "k \<in> {1 ..< nat days}" using t by simp
      then have "- 100 < shock_size" using sh k(3) by blast
      then show "0 < 1 + shock_size / 100" by simp
    qed
    then show ?thesis by (auto simp del: upt_Suc)
  qed
  have "length ?m = nat days \<and>
        (\<forall>r \<in> set ?m. length r = nat sims) \<and>
        (\<forall>j < nat sims. ?m ! 0 ! j = S0) \<and>
        (- 100 < shock_size \<or> (\<forall>t \<in> {1 ..< nat days}. \<not> shock_applies shock_day t) \<longrightarrow>
           (\<forall>r \<in> set ?m. \<forall>x \<in> set r. 0 < x))"
    using n len r0 allpos by blast
  then show ?thesis using sim by blast
qed

theorem shape_day0_and_positive_witness:
  "(1::int) \<le> 3 \<and> (1::int) \<le> 2 \<and> (0::real) < 100 \<and> (- 100 :: real) < - 50 \<and>
   simulate_price_paths \<lparr>source = (\<lambda>i. 0), consumed = 0\<rparr> 100 0 0 3 2 (- 50) (Some 2) =
     Inr ([[100, 100], [50, 50], [50, 50]], \<lparr>source = (\<lambda>i. 0), consumed = 4\<rparr>) \<and>
   (\<exists>m g'. simulate_price_paths \<lparr>source = (\<lambda>i. 0), consumed = 0\<rparr> 100 0 0 3 2 (- 50) (Some 2) = Inr (m, g') \<and>
        length m = nat 3 \<and> list_all (\<lambda>r. length r = nat 2) m \<and>
        list_all (\<lambda>j. m ! 0 ! j = 100) [0, 1] \<and>
        list_all (\<lambda>r. list_all (\<lambda>x. 0 < x) r) m) \<and>
   (1::int) \<le> 2 \<and> (1::int) \<le> 1 \<and>
   (\<exists>m g'. simulate_price_paths \<lparr>source = (\<lambda>i. 0), consumed = 0\<rparr> 100 0 0 2 1 (- 100) (Some 2) = Inr (m, g') \<and>
        length m = nat 2 \<and> list_all (\<lambda>r. length r = nat 1) m \<and> m ! 0 ! 0 = 100)"
proof -
  have e: "simulate_price_paths \<lparr>source = (\<lambda>i. 0), consumed = 0\<rparr> 100 0 0 3 2 (- 50) (Some 2) =
     Inr ([[100, 100], [50, 50], [50, 50]], \<lparr>source = (\<lambda>i. 0), consumed = 4\<rparr>)"
    by (simp add: simulate_eval)
  have f: "simulate_price_paths \<lparr>source = (\<lambda>i. 0), consumed = 0\<rparr> 100 0 0 2 1 (- 100) (Some 2) =
     Inr ([[100], [0]], \<lparr>source = (\<lambda>i. 0), consumed = 1\<rparr>)"
    by (simp add: simulate_eval)
  show ?thesis
    using shape_day0_and_positive
      [of 3 2 100 "\<lparr>source = (\<lambda>i. 0), consumed = 0\<rparr>" 0 0 "- 50" "Some 2"]
      shape_day0_and_positive
      [of 2 1 100 "\<lparr>source = (\<lambda>i. 0), consumed = 0\<rparr>" 0 0 "- 100" "Some 2"]
    by (simp add: e f list_all_iff)
qed

text \<open>With no volatility and no shock every row is the drift applied to \<open>S0\<close>.\<close>

lemma simulate_sigma0_no_shock:
  assumes a: "1 \<le> days" and s: "0 \<le> sims"
  shows "simulate_price_paths g S0 mu 0 days sims shock_size None =
       Inr (map (\<lambda>t. replicate (nat sims) (S0 * exp mu ^ t)) [0 ..< nat days],
            g\<lparr>consumed := consumed g + (nat days - 1) * nat sims\<rparr>)"
  using simulate_rows[OF a s, of g S0 mu 0 shock_size None]
  by (simp add: path_row_sigma0_drift del: upt_Suc)

lemma scenario_100_0_0_5_3:
  "simulate_price_paths g 100 0 0 5 3 0 None =
       Inr ([[100, 100, 100], [100, 100, 100], [100, 100, 100], [100, 100, 100], [100, 100, 100]],
            g\<lparr>consumed := consumed g + 12\<rparr>)"
proof -
  have "[0 ..< nat 5] = [0, 1, 2, 3, 4]" by (simp add: upt_rec numeral_eq_Suc)
  moreover have "replicate (nat 3) (100::real) = [100, 100, 100]" by (simp add: numeral_eq_Suc)
  ultimately show ?thesis
    using simulate_sigma0_no_shock[of 5 3 g 100 0 0] by simp
qed


text \<open>
  Claim C5. With \<open>sigma = 0\<close> all columns of the returned matrix are identical
  (whatever the shock parameters are, since a shock multiplies a whole row); with no
  shock, row \<open>t\<close> holds \<open>S0 * exp mu ^ t\<close> in every column; and for
  \<open>S0 = 100, mu = 0, sigma = 0, days = 5, sims = 3\<close> every column is
  \<open>[100, 100, 100, 100, 100]\<close>.
\<close>

theorem zero_sigma_columns_identical:
  "1 \<le> days \<Longrightarrow> 0 \<le> sims \<Longrightarrow>
     (\<exists>m g'. simulate_price_paths g S0 mu 0 days sims shock_size shock_day = Inr (m, g') \<and>
        length m = nat days \<and>
        (\<forall>i < nat sims. \<forall>j < nat sims. map (\<lambda>r. r ! i) m = map (\<lambda>r. r ! j) m)) \<and>
     simulate_price_paths g S0 mu 0 days sims shock_size None =
       Inr (map (\<lambda>t. replicate (nat sims) (S0 * exp mu ^ t)) [0 ..< nat days],
            g\<lparr>consumed := consumed g + (nat days - 1) * nat sims\<rparr>) \<and>
     simulate_price_paths g 100 0 0 5 3 0 None =
       Inr ([[100, 100, 100], [100, 100, 100], [100, 100, 100], [100, 100, 100], [100, 100, 100]],
            g\<lparr>consumed := consumed g + 12\<rparr>)"
proof -
  assume a: "1 \<le> days" and s: "0 \<le> sims"
  let ?row = "path_row g S0 mu 0 (nat sims) shock_size shock_day"
  let ?m = "map ?row [0 ..< nat days]"
  have col: "map (\<lambda>r. r ! i) ?m = map (\<lambda>r. r ! j) ?m" if "i < nat sims" "j < nat sims" for i j
  proof -
    have "?row t ! i = ?row t ! j" for t
    proof -
      obtain c where "?row t = replicate (nat sims) c"
        using path_row_sigma0_const[of g S0 mu "nat sims" shock_size shock_day t] ..
      then show ?thesis using that by simp
    qed
    then show ?thesis by (simp del: upt_Suc)
  qed
  have sim: "simulate_price_paths g S0 mu 0 days sims shock_size shock_day =
      Inr (?m, g\<lparr>consumed := consumed g + (nat days - 1) * nat sims\<rparr>)"
    by (rule simulate_rows[OF a s])
  have len: "length ?m = nat days" by simp
  have first: "\<exists>m g'. simulate_price_paths g S0 mu 0 days sims shock_size shock_day = Inr (m, g') \<and>
        length m = nat days \<and>
        (\<forall>i < nat sims. \<forall>j < nat sims. map (\<lambda>r. r ! i) m = map (\<lambda>r. r ! j) m)"
    using sim len col by blast
  show ?thesis
    by (intro conjI first simulate_sigma0_no_shock[OF a s] scenario_100_0_0_5_3)
qed

theorem zero_sigma_columns_identical_witness:
  "(1::int) \<le> 3 \<and> (0::int) \<le> 2 \<and>
   simulate_price_paths \<lparr>source = (\<lambda>i. real i), consumed = 0\<rparr> 100 0 0 3 2 0 None =
       Inr ([[100, 100], [100, 100], [100, 100]], \<lparr>source = (\<lambda>i. real i), consumed = 4\<rparr>) \<and>
   simulate_price_paths \<lparr>source = (\<lambda>i. real i), consumed = 0\<rparr> 100 0 0 5 3 0 None =
       Inr ([[100, 100, 100], [100, 100, 100], [100, 100, 100], [100, 100, 100], [100, 100, 100]],
            \<lparr>source = (\<lambda>i. real i), consumed = 12\<rparr>)"
proof -
  have l: "[0 ..< nat 3] = [0, 1, 2]" by (simp add: upt_rec numeral_eq_Suc)
  have "(1::int) \<le> 3" "(0::int) \<le> 2" by simp_all
  from zero_sigma_columns_identical
    [OF this, of "\<lparr>source = (\<lambda>i. real i), consumed = 0\<rparr>" 100 0 0 None]
  show ?thesis unfolding l by (simp add: numeral_2_eq_2)
qed

section \<open>Claims about time\_to\_target\<close>

text \<open>The first index kept by a filter over \<open>[0 ..< n]\<close> is the least index that passes.\<close>

lemma hd_filter_upt_Least:
  assumes "filter P [0 ..< n] \<noteq> []"
  shows "filter P [0 ..< n] ! 0 = (LEAST i. i < n \<and> P i)"
proof -
  obtain h t where ht: "filter P [0 ..< n] = h # t" using assms by (cases "filter P [0 ..< n]") auto
  have "h \<in> set (filter P [0 ..< n])" using ht by simp
  then have h: "h < n \<and> P h" by simp
  have "sorted (filter P [0 ..< n])" by (simp add: sorted_wrt_filter)
  then have le: "\<forall>x \<in> set t. h \<le> x" using ht by simp
  have "h \<le> i" if "i < n \<and> P i" for i
  proof -
    have "i \<in> set (h # t)" using that ht[symmetric] by simp
    then show ?thesis using le by auto
  qed
  then have "(LEAST i. i < n \<and> P i) = h" using h by (intro Least_equality) auto
  then show ?thesis using ht by simp
qed

lemma np_where_ge_column:
  "np_where_ge (column paths j) target =
     filter (\<lambda>i. target \<le> paths ! i ! j) [0 ..< length paths]"
  by (auto simp add: np_where_ge_def column_def intro: filter_cong)

lemma hit_body_eq:
  "hit_body paths target j acc =
     acc @ (if \<exists>i < length paths. target \<le> paths ! i ! j
            then [LEAST i. i < length paths \<and> target \<le> paths ! i ! j] else [])"
proof -
  let ?P = "\<lambda>i. target \<le> paths ! i ! j"
  have ne: "filter ?P [0 ..< length paths] \<noteq> [] \<longleftrightarrow> (\<exists>i < length paths. ?P i)"
    by (auto simp add: filter_empty_conv)
  show ?thesis
  proof (cases "\<exists>i < length paths. ?P i")
    case True
    then have "filter ?P [0 ..< length paths] \<noteq> []" using ne by simp
    then show ?thesis
      using True hd_filter_upt_Least[of ?P "length paths"]
      by (simp add: hit_body_def np_where_ge_column Let_def)
  next
    case False
    then have "filter ?P [0 ..< length paths] = []" using ne by blast
    then show ?thesis using False by (simp add: hit_body_def np_where_ge_column Let_def)
  qed
qed

lemma fold_hit_body:
  "fold (hit_body paths target) js acc =
     acc @ map (\<lambda>j. LEAST i. i < length paths \<and> target \<le> paths ! i ! j)
             (filter (\<lambda>j. \<exists>i < length paths. target \<le> paths ! i ! j) js)"
  by (induction js arbitrary: acc) (simp_all add: hit_body_eq)

text \<open>
  Claim C4. For a rectangular path matrix, the result lists, in column order, the
  columns that have a row with price at least \<open>target\<close>, each by the least such row
  index; a column with no such row has no entry. For the single column
  \<open>[100, 90, 110, 120]\<close> and target 105 the result is \<open>[2]\<close>.
\<close>

theorem time_to_target_first_hits:
  "(\<forall>r \<in> set paths. length r = ncols paths) \<Longrightarrow>
     time_to_target paths target =
       map (\<lambda>j. LEAST i. i < length paths \<and> target \<le> paths ! i ! j)
         (filter (\<lambda>j. \<exists>i < length paths. target \<le> paths ! i ! j) [0 ..< ncols paths]) \<and>
     time_to_target [[100], [90], [110], [120]] 105 = [2]"
proof -
  have "time_to_target [[100], [90], [110], [120]] 105 = [2]"
    by (simp add: time_to_target_def ncols_def hit_body_def np_where_ge_def column_def upt_rec
        numeral_eq_Suc)
  then show ?thesis by (simp add: time_to_target_def fold_hit_body)
qed

theorem time_to_target_first_hits_witness:
  "list_all (\<lambda>r. length r = ncols [[100, 100, 100], [90, 110, 90], [120, 95, 80 :: real]])
     [[100, 100, 100], [90, 110, 90], [120, 95, 80]] \<and>
   time_to_target [[100, 100, 100], [90, 110, 90], [120, 95, 80]] 105 = [2, 1] \<and>
   time_to_target [[100], [90], [110], [120]] 105 = [2]"
proof -
  have a: "\<forall>r \<in> set [[100, 100, 100], [90, 110, 90], [120, 95, 80 :: real]].
      length r = ncols [[100, 100, 100], [90, 110, 90], [120, 95, 80]]"
    by (simp add: ncols_def)
  have e: "time_to_target [[100, 100, 100], [90, 110, 90], [120, 95, 80]] 105 = [2, 1]"
    by (simp add: time_to_target_def ncols_def hit_body_def np_where_ge_def column_def upt_rec
        numeral_eq_Suc)
  show ?thesis
    using time_to_target_first_hits[OF a, of 105] e by (simp add: ncols_def)
qed

section \<open>Claims about get\_price\_statistics\<close>

text \<open>
  The interpolation between two neighbouring order statistics lies between them, and
  it grows with the virtual index.
\<close>

lemma lerp_sorted_bounds:
  assumes "sorted s" "s \<noteq> []" "0 \<le> v" "v \<le> real (length s - 1)"
  shows "s ! nat \<lfloor>v\<rfloor> \<le> lerp_sorted s v"
    and "lerp_sorted s v \<le> s ! min (nat \<lfloor>v\<rfloor> + 1) (length s - 1)"
    and "nat \<lfloor>v\<rfloor> \<le> length s - 1"
proof -
  let ?lo = "nat \<lfloor>v\<rfloor>"
  let ?hi = "min (?lo + 1) (length s - 1)"
  have "\<lfloor>v\<rfloor> \<le> int (length s - 1)" using assms(4) by (simp add: floor_le_iff)
  then show lo: "?lo \<le> length s - 1" by simp
  have n: "0 < length s" using assms(2) by simp
  have "?hi \<le> length s - 1" by (rule min.cobounded2)
  then have hi: "?hi < length s" using n by linarith
  have lohi: "?lo \<le> ?hi" using lo by simp
  have d: "s ! ?lo \<le> s ! ?hi" using assms(1) lohi hi by (rule sorted_nth_mono)
  have "real ?lo = of_int \<lfloor>v\<rfloor>" using assms(3) by simp
  then have g: "0 \<le> v - real ?lo" "v - real ?lo \<le> 1" by linarith+
  have "0 \<le> (s ! ?hi - s ! ?lo) * (v - real ?lo)" using d g(1) by simp
  then show "s ! ?lo \<le> lerp_sorted s v" by (simp add: lerp_sorted_def Let_def)
  have "(s ! ?hi - s ! ?lo) * (v - real ?lo) \<le> (s ! ?hi - s ! ?lo) * 1"
    using d g(2) by (intro mult_left_mono) simp_all
  then show "lerp_sorted s v \<le> s ! ?hi" by (simp add: lerp_sorted_def Let_def)
qed

lemma lerp_sorted_mono:
  assumes "sorted s" "s \<noteq> []" "0 \<le> v" "v \<le> w" "w \<le> real (length s - 1)"
  shows "lerp_sorted s v \<le> lerp_sorted s w"
proof -
  let ?lv = "nat \<lfloor>v\<rfloor>" and ?lw = "nat \<lfloor>w\<rfloor>"
  have w0: "0 \<le> w" and v1: "v \<le> real (length s - 1)" using assms by linarith+
  have le: "?lv \<le> ?lw" using assms(4) by (simp add: floor_mono nat_mono)
  have n: "0 < length s" using assms(2) by simp
  show ?thesis
  proof (cases "?lv = ?lw")
    case True
    let ?hi = "min (?lw + 1) (length s - 1)"
    have lw: "?lw \<le> length s - 1" using lerp_sorted_bounds(3)[OF assms(1,2) w0 assms(5)] .
    have "?hi \<le> length s - 1" by (rule min.cobounded2)
    then have "?hi < length s" using n by linarith
    moreover have "?lw \<le> ?hi" using lw by simp
    ultimately have "s ! ?lw \<le> s ! ?hi" using assms(1) sorted_nth_mono by blast
    then have "(s ! ?hi - s ! ?lw) * (v - real ?lw) \<le> (s ! ?hi - s ! ?lw) * (w - real ?lw)"
      using assms(4) by (intro mult_left_mono) simp_all
    then show ?thesis using True by (simp add: lerp_sorted_def Let_def)
  next
    case False
    then have lt: "?lv < ?lw" using le by linarith
    let ?hv = "min (?lv + 1) (length s - 1)"
    have lw: "?lw \<le> length s - 1" using lerp_sorted_bounds(3)[OF assms(1,2) w0 assms(5)] .
    have "lerp_sorted s v \<le> s ! ?hv" using lerp_sorted_bounds(2)[OF assms(1,2,3) v1] .
    also have "s ! ?hv \<le> s ! ?lw"
    proof -
      have "?lv + 1 \<le> ?lw" using lt by linarith
      then have "?hv \<le> ?lw" by (rule min.coboundedI1)
      moreover have "?lw < length s" using lw n by linarith
      ultimately show ?thesis using assms(1) sorted_nth_mono by blast
    qed
    also have "s ! ?lw \<le> lerp_sorted s w" using lerp_sorted_bounds(1)[OF assms(1,2) w0 assms(5)] .
    finally show ?thesis .
  qed
qed

text \<open>The median is the interpolation at the middle virtual index.\<close>

lemma median_as_lerp:
  assumes "a \<noteq> []"
  shows "np_median a = Some (lerp_sorted (sort a) (real (length a - 1) / 2))"
proof (cases "length a mod 2 = 1")
  case True
  then obtain k where k: "length a = 2 * k + 1" by (metis mult_div_mod_eq)
  then have "real (length a - 1) / 2 = real k" by simp
  then show ?thesis using assms k by (simp add: np_median_def lerp_sorted_def Let_def)
next
  case False
  then have "length a mod 2 = 0" by simp
  then obtain k where k: "length a = 2 * k" by auto
  have k0: "0 < k" using assms k by (cases k) auto
  then obtain j where j: "k = Suc j" by (cases k) auto
  have v: "real (length a - 1) / 2 = real j + 1 / 2" using k j by (simp add: field_simps)
  have fl: "\<lfloor>real j + 1 / 2\<rfloor> = int j" by (simp add: floor_unique)
  have hi: "min (j + 1) (length (sort a) - 1) = Suc j" using k j by simp
  show ?thesis
    using assms k j False
    unfolding np_median_def lerp_sorted_def Let_def v fl hi
    by (simp add: field_simps)
qed

lemma sort_first_last:
  assumes "a \<noteq> []"
  shows "sort a ! 0 = Min (set a)" and "sort a ! (length a - 1) = Max (set a)"
proof -
  let ?s = "sort a"
  have n: "0 < length ?s" using assms by simp
  have s: "sorted ?s" by simp
  have last: "length a - 1 < length ?s" using n by simp
  have "?s ! 0 \<in> set ?s" using n by (rule nth_mem)
  then have mem0: "?s ! 0 \<in> set a" by simp
  have "?s ! (length a - 1) \<in> set ?s" using last by (rule nth_mem)
  then have memn: "?s ! (length a - 1) \<in> set a" by simp
  have idx: "\<exists>i < length ?s. ?s ! i = x" if "x \<in> set a" for x
  proof -
    have "x \<in> set ?s" using that by simp
    then show ?thesis unfolding in_set_conv_nth .
  qed
  have lo: "?s ! 0 \<le> x" if xa: "x \<in> set a" for x
  proof -
    obtain i where i: "i < length ?s" "?s ! i = x" using idx[OF xa] by blast
    have "?s ! 0 \<le> ?s ! i" using s _ i(1) by (rule sorted_nth_mono) simp
    then show ?thesis using i(2) by simp
  qed
  have hi: "x \<le> ?s ! (length a - 1)" if xa: "x \<in> set a" for x
  proof -
    obtain i where i: "i < length ?s" "?s ! i = x" using idx[OF xa] by blast
    have "i \<le> length a - 1" using i(1) by simp
    then have "?s ! i \<le> ?s ! (length a - 1)" using s last sorted_nth_mono by blast
    then show ?thesis using i(2) by simp
  qed
  have fin: "finite (set a)" by simp
  show "?s ! 0 = Min (set a)"
    by (rule Min_eqI[symmetric, OF fin]) (use mem0 lo in blast)+
  show "?s ! (length a - 1) = Max (set a)"
    by (rule Max_eqI[symmetric, OF fin]) (use memn hi in blast)+
qed

lemma percentile_facts:
  assumes "a \<noteq> []"
  shows "\<exists>m md lo hi.
           np_mean a = Some m \<and> np_median a = Some md \<and>
           np_percentile a 5 = Some lo \<and> np_percentile a 95 = Some hi \<and>
           lo \<le> md \<and> md \<le> hi \<and> Min (set a) \<le> lo \<and> hi \<le> Max (set a)"
proof -
  let ?s = "sort a"
  let ?n1 = "real (length a - 1)"
  have s: "sorted ?s" by simp
  have n: "0 < length ?s" using assms by simp
  then have ne: "?s \<noteq> []" by blast
  have len: "length ?s = length a" by simp
  have n1: "0 \<le> ?n1" by simp
  have v5: "0 \<le> ?n1 * (5 / 100)" "?n1 * (5 / 100) \<le> ?n1 / 2" using n1 by simp_all
  have v95: "?n1 / 2 \<le> ?n1 * (95 / 100)" "?n1 * (95 / 100) \<le> real (length ?s - 1)"
    using n1 by simp_all
  have v50: "0 \<le> ?n1 / 2" "?n1 / 2 \<le> real (length ?s - 1)" using n1 by simp_all
  have v5': "?n1 * (5 / 100) \<le> real (length ?s - 1)" using n1 by simp
  have v95': "0 \<le> ?n1 * (95 / 100)" using n1 by simp
  have a: "lerp_sorted ?s (?n1 * (5 / 100)) \<le> lerp_sorted ?s (?n1 / 2)"
    using s ne v5 v50(2) by (rule lerp_sorted_mono)
  have b: "lerp_sorted ?s (?n1 / 2) \<le> lerp_sorted ?s (?n1 * (95 / 100))"
    using s ne v50(1) v95 by (rule lerp_sorted_mono)
  have lo5: "nat \<lfloor>?n1 * (5 / 100)\<rfloor> < length ?s"
    using lerp_sorted_bounds(3)[OF s ne v5(1) v5'] n by linarith
  have "?s ! 0 \<le> ?s ! nat \<lfloor>?n1 * (5 / 100)\<rfloor>"
    using s _ lo5 by (rule sorted_nth_mono) simp
  also have "\<dots> \<le> lerp_sorted ?s (?n1 * (5 / 100))"
    using lerp_sorted_bounds(1)[OF s ne v5(1) v5'] .
  finally have c: "Min (set a) \<le> lerp_sorted ?s (?n1 * (5 / 100))"
    using sort_first_last(1)[OF assms] by simp
  have "lerp_sorted ?s (?n1 * (95 / 100)) \<le> ?s ! min (nat \<lfloor>?n1 * (95 / 100)\<rfloor> + 1) (length ?s - 1)"
    using lerp_sorted_bounds(2)[OF s ne v95' v95(2)] .
  also have "\<dots> \<le> ?s ! (length ?s - 1)"
    using s by (rule sorted_nth_mono) (use n in simp_all)
  finally have d: "lerp_sorted ?s (?n1 * (95 / 100)) \<le> Max (set a)"
    using sort_first_last(2)[OF assms] by simp
  show ?thesis
    using assms a b c d
    by (simp add: np_mean_def median_as_lerp np_percentile_def)
qed

lemma stats_singleton:
  "np_mean [x] = Some x" "np_median [x] = Some x"
  "np_percentile [x] q = Some x"
  by (simp_all add: np_mean_def np_median_def np_percentile_def lerp_sorted_def)

text \<open>
  Claim C7. For a matrix whose final row is not empty, the statistics are real numbers
  with \<open>p5 \<le> median \<le> p95\<close>, the minimum of the final row at most \<open>p5\<close> and
  \<open>p95\<close> at most its maximum; when the final row has one element, the mean, the median
  and both percentiles equal it.
\<close>

theorem percentile_ordering:
  "paths \<noteq> [] \<Longrightarrow> last paths \<noteq> [] \<Longrightarrow>
     (\<exists>m md lo hi.
        get_price_statistics paths =
          Inr \<lparr>mean = Some m, median = Some md, p5 = Some lo, p95 = Some hi\<rparr> \<and>
        lo \<le> md \<and> md \<le> hi \<and>
        Min (set (last paths)) \<le> lo \<and> hi \<le> Max (set (last paths)) \<and>
        (\<forall>x. last paths = [x] \<longrightarrow> m = x \<and> md = x \<and> lo = x \<and> hi = x))"
proof -
  assume p: "paths \<noteq> []" and f: "last paths \<noteq> []"
  obtain m md lo hi where st:
    "np_mean (last paths) = Some m" "np_median (last paths) = Some md"
    "np_percentile (last paths) 5 = Some lo" "np_percentile (last paths) 95 = Some hi"
    and ord: "lo \<le> md" "md \<le> hi" "Min (set (last paths)) \<le> lo" "hi \<le> Max (set (last paths))"
    using percentile_facts[OF f] by blast
  have g: "get_price_statistics paths =
      Inr \<lparr>mean = Some m, median = Some md, p5 = Some lo, p95 = Some hi\<rparr>"
    using p st by (cases paths) (simp_all add: get_price_statistics_def Let_def)
  have one: "m = x \<and> md = x \<and> lo = x \<and> hi = x" if x: "last paths = [x]" for x
    using st stats_singleton[of x] unfolding x by simp
  show ?thesis using g ord one by blast
qed

theorem percentile_ordering_witness:
  "[[100, 100, 100], [130, 90, 110 :: real]] \<noteq> [] \<and>
   last [[100, 100, 100], [130, 90, 110 :: real]] \<noteq> [] \<and>
   get_price_statistics [[100, 100, 100], [130, 90, 110]] =
     Inr \<lparr>mean = Some 110, median = Some 110, p5 = Some 92, p95 = Some 128\<rparr> \<and>
   (92 :: real) \<le> 110 \<and> (110 :: real) \<le> 128 \<and>
   Min (set (last [[100, 100, 100], [130, 90, 110 :: real]])) \<le> 92 \<and>
   128 \<le> Max (set (last [[100, 100, 100], [130, 90, 110 :: real]])) \<and>
   get_price_statistics [[7]] =
     Inr \<lparr>mean = Some 7, median = Some 7, p5 = Some 7, p95 = Some 7\<rparr>"
proof -
  have fl: "\<lfloor>1 / 10 :: real\<rfloor> = 0" "\<lfloor>19 / 10 :: real\<rfloor> = 1" by (simp_all add: floor_unique)
  have e: "get_price_statistics [[100, 100, 100], [130, 90, 110]] =
     Inr \<lparr>mean = Some 110, median = Some 110, p5 = Some 92, p95 = Some 128\<rparr>"
    by (simp add: get_price_statistics_def np_mean_def np_median_def np_percentile_def
        lerp_sorted_def fl)
  show ?thesis
    using percentile_ordering[of "[[100, 100, 100], [130, 90, 110]]"]
      percentile_ordering[of "[[7]]"]
    by (simp add: e)
qed

section \<open>Claims about the Sharpe ratio\<close>




section \<open>Claims about the consumers' effect on their argument\<close>

lemma kept_append: "kept s (s @ t)"
  by (simp add: kept_def nth_append)

lemma matrix_at_append: "p < length s \<Longrightarrow> matrix_at (s @ t) p = matrix_at s p"
  by (simp add: matrix_at_def nth_append)

lemma read_row_at:
  "p < length s \<Longrightarrow> s ! p = FloatMatrix paths \<Longrightarrow>
     read_view (s @ t) (RowView p i) = paths ! i"
  by (simp add: matrix_at_def nth_append)

lemma sorted_copy_eq:
  "sorted_copy v s = (length s, s @ [FloatArray (sort (read_view s v))])"
  by (simp add: sorted_copy_def alloc_def floats_at_def)

lemma floats_at_new: "floats_at (s @ [FloatArray xs]) (length s) = xs"
  by (simp add: floats_at_def)

text \<open>Ordering the private copy first does not change what the reducers return.\<close>

lemma np_median_sort: "np_median (sort xs) = np_median xs"
proof -
  have "sort xs = [] \<longleftrightarrow> xs = []" using length_sort[of "\<lambda>x. x" xs] by (metis length_0_conv)
  moreover have "sort (sort xs) = sort xs" by (simp add: sorted_sort_id)
  ultimately show ?thesis by (simp add: np_median_def)
qed

lemma np_percentile_sort: "np_percentile (sort xs) q = np_percentile xs q"
proof -
  have "sort xs = [] \<longleftrightarrow> xs = []" using length_sort[of "\<lambda>x. x" xs] by (metis length_0_conv)
  moreover have "sort (sort xs) = sort xs" by (simp add: sorted_sort_id)
  ultimately show ?thesis by (simp add: np_percentile_def)
qed

lemma np_median_st_eq:
  "np_median_st v s = (np_median (read_view s v), s @ [FloatArray (sort (read_view s v))])"
  by (simp add: np_median_st_def sorted_copy_eq floats_at_new np_median_sort)

lemma np_percentile_st_eq:
  "np_percentile_st v q s =
     (np_percentile (read_view s v) q, s @ [FloatArray (sort (read_view s v))])"
  by (simp add: np_percentile_st_def sorted_copy_eq floats_at_new np_percentile_sort)

lemma get_price_statistics_st_eq:
  assumes "p < length s" "s ! p = FloatMatrix paths"
  shows "\<exists>t. get_price_statistics_st p s = (get_price_statistics paths, s @ t)"
proof (cases paths)
  case Nil
  then have "get_price_statistics_st p s = (get_price_statistics paths, s @ [])"
    using assms by (simp add: get_price_statistics_st_def get_price_statistics_def matrix_at_def)
  then show ?thesis by blast
next
  case (Cons r rs)
  let ?v = "RowView p (length paths - 1)"
  let ?c = "FloatArray (sort (last paths))"
  have m: "matrix_at s p = paths" using assms by (simp add: matrix_at_def)
  have l: "paths ! (length paths - 1) = last paths" using Cons by (simp add: last_conv_nth)
  have rv: "read_view s ?v = last paths"
    using read_row_at[OF assms, of "[]"] l by simp
  have rv1: "read_view (s @ [?c]) ?v = last paths"
    using read_row_at[OF assms, of "[?c]"] l by simp
  have rv2: "read_view ((s @ [?c]) @ [?c]) ?v = last paths"
    using read_row_at[OF assms, of "[?c, ?c]"] l by simp
  have gs: "get_price_statistics paths =
      Inr \<lparr>mean = np_mean (last paths), median = np_median (last paths),
           p5 = np_percentile (last paths) 5, p95 = np_percentile (last paths) 95\<rparr>"
    unfolding get_price_statistics_def Let_def Cons list.case ..
  have st: "get_price_statistics_st p s =
      (let final_prices = ?v;
           (m, s1) = np_mean_st final_prices s;
           (md, s2) = np_median_st final_prices s1;
           (lo, s3) = np_percentile_st final_prices 5 s2;
           (hi, s4) = np_percentile_st final_prices 95 s3
       in (Inr \<lparr>mean = m, median = md, p5 = lo, p95 = hi\<rparr>, s4))"
    unfolding get_price_statistics_st_def m by (simp add: Cons)
  have "get_price_statistics_st p s =
      (get_price_statistics paths, ((s @ [?c]) @ [?c]) @ [?c])"
    unfolding st gs Let_def np_mean_st_def split_conv np_median_st_eq np_percentile_st_eq
      rv rv1 rv2 ..
  then have "get_price_statistics_st p s = (get_price_statistics paths, s @ [?c, ?c, ?c])"
    by simp
  then show ?thesis by blast
qed

text \<open>
  The loop of \<open>time_to_target\<close> writes only to \<open>hit_days\<close>, which sits right after the
  objects the caller had; everything else it makes is put behind it.
\<close>

lemma hit_body_st_step:
  assumes "p < length s" "s ! p = FloatMatrix paths"
  shows "\<exists>t. hit_body_st p target (length s) j (s @ PyList acc # t0) =
           s @ PyList (hit_body paths target j acc) # t"
proof -
  let ?S = "s @ PyList acc # t0"
  let ?col = "column paths j"
  let ?m = "map (\<lambda>x. target \<le> x) ?col"
  let ?hs = "filter (\<lambda>i. ?m ! i) [0 ..< length ?m]"
  have mat: "matrix_at ?S p = paths" using assms by (simp add: matrix_at_def nth_append)
  have col: "read_view ?S (ColView p j) = ?col" using mat by simp
  have a1: "alloc (BoolArray ?m) ?S = (length ?S, ?S @ [BoolArray ?m])" by (simp add: alloc_def)
  have b1: "bools_at (?S @ [BoolArray ?m]) (length ?S) = ?m"
    unfolding bools_at_def nth_append_length by simp
  have a2: "alloc (IntArray ?hs) (?S @ [BoolArray ?m]) =
      (length (?S @ [BoolArray ?m]), (?S @ [BoolArray ?m]) @ [IntArray ?hs])"
    by (simp add: alloc_def)
  let ?S2 = "(?S @ [BoolArray ?m]) @ [IntArray ?hs]"
  have i2: "ints_at ?S2 (length (?S @ [BoolArray ?m])) = ?hs"
    unfolding ints_at_def nth_append_length by simp
  have S2: "?S2 = s @ PyList acc # (t0 @ [BoolArray ?m, IntArray ?hs])" by simp
  have h2: "ints_at ?S2 (length s) = acc"
    unfolding S2 ints_at_def nth_append_length by simp
  have upd: "?S2[length s := v] = s @ v # (t0 @ [BoolArray ?m, IntArray ?hs])" for v
    unfolding S2 by (rule list_update_length)
  have hs: "?hs = np_where_ge ?col target"
    by (auto simp add: np_where_ge_def intro: filter_cong)
  have "hit_body_st p target (length s) j ?S =
      (if length ?hs > 0 then ?S2[length s := PyList (acc @ [?hs ! 0])] else ?S2)"
    unfolding hit_body_st_def col Let_def a1 split_conv b1 a2 i2 h2 ..
  also have "\<dots> = s @ PyList (hit_body paths target j acc) # (t0 @ [BoolArray ?m, IntArray ?hs])"
    unfolding upd hit_body_def Let_def hs[symmetric] using S2 by simp
  finally show ?thesis by blast
qed

lemma fold_hit_body_st:
  assumes "p < length s" "s ! p = FloatMatrix paths"
  shows "\<exists>t. fold (hit_body_st p target (length s)) js (s @ PyList acc # t0) =
           s @ PyList (fold (hit_body paths target) js acc) # t"
proof (induction js arbitrary: acc t0)
  case Nil
  show ?case by simp
next
  case (Cons j js)
  obtain t1 where "hit_body_st p target (length s) j (s @ PyList acc # t0) =
           s @ PyList (hit_body paths target j acc) # t1"
    using hit_body_st_step[OF assms] by blast
  then show ?case using Cons.IH[of "hit_body paths target j acc" t1] by simp
qed

lemma time_to_target_st_eq:
  assumes "p < length s" "s ! p = FloatMatrix paths"
  shows "\<exists>t. time_to_target_st p target s = (time_to_target paths target, s @ t)"
proof -
  have m: "matrix_at s p = paths" using assms by (simp add: matrix_at_def)
  obtain t where t: "fold (hit_body_st p target (length s)) [0 ..< ncols paths] (s @ PyList [] # []) =
      s @ PyList (fold (hit_body paths target) [0 ..< ncols paths] []) # t"
    using fold_hit_body_st[OF assms] by blast
  have "ints_at (s @ PyList (time_to_target paths target) # t) (length s) =
      time_to_target paths target"
    unfolding ints_at_def nth_append_length by simp
  then have "time_to_target_st p target s =
      (time_to_target paths target, s @ PyList (time_to_target paths target) # t)"
    using t by (simp add: time_to_target_st_def alloc_def m time_to_target_def Let_def)
  then show ?thesis by blast
qed

text \<open>
  Claim C10. With the path matrix stored at an address of the store, each of the two
  calls returns what the function computes from that matrix and a store in which every
  object the caller had is unchanged, the matrix itself in particular: the calls only
  add objects of their own.
\<close>

theorem consumers_leave_paths_unchanged:
  "p < length s \<Longrightarrow> s ! p = FloatMatrix paths \<Longrightarrow>
     fst (get_price_statistics_st p s) = get_price_statistics paths \<and>
     kept s (snd (get_price_statistics_st p s)) \<and>
     snd (get_price_statistics_st p s) ! p = FloatMatrix paths \<and>
     fst (time_to_target_st p target s) = time_to_target paths target \<and>
     kept s (snd (time_to_target_st p target s)) \<and>
     snd (time_to_target_st p target s) ! p = FloatMatrix paths"
proof -
  assume a: "p < length s" "s ! p = FloatMatrix paths"
  obtain t1 where t1: "get_price_statistics_st p s = (get_price_statistics paths, s @ t1)"
    using get_price_statistics_st_eq[OF a] by blast
  obtain t2 where t2: "time_to_target_st p target s = (time_to_target paths target, s @ t2)"
    using time_to_target_st_eq[OF a] by blast
  show ?thesis using a by (simp add: t1 t2 kept_append nth_append)
qed

theorem consumers_leave_paths_unchanged_witness:
  "(1::nat) < length [PyList [7], FloatMatrix [[100], [90], [110], [120]]] \<and>
   [PyList [7], FloatMatrix [[100], [90], [110], [120]]] ! 1 = FloatMatrix [[100], [90], [110], [120]] \<and>
   time_to_target_st 1 105 [PyList [7], FloatMatrix [[100], [90], [110], [120]]] =
     ([2], [PyList [7], FloatMatrix [[100], [90], [110], [120]], PyList [2],
            BoolArray [False, False, True, True], IntArray [2, 3]]) \<and>
   get_price_statistics_st 1 [PyList [7], FloatMatrix [[100], [90], [110], [120]]] =
     (Inr \<lparr>mean = Some 120, median = Some 120, p5 = Some 120, p95 = Some 120\<rparr>,
      [PyList [7], FloatMatrix [[100], [90], [110], [120]],
       FloatArray [120], FloatArray [120], FloatArray [120]]) \<and>
   snd (get_price_statistics_st 1 [PyList [7], FloatMatrix [[100], [90], [110], [120]]]) ! 1 =
     FloatMatrix [[100], [90], [110], [120]] \<and>
   snd (time_to_target_st 1 105 [PyList [7], FloatMatrix [[100], [90], [110], [120]]]) ! 1 =
     FloatMatrix [[100], [90], [110], [120]]"
proof -
  let ?s = "[PyList [7], FloatMatrix [[100], [90], [110], [120]]]"
  have t: "time_to_target_st 1 105 ?s =
     ([2], [PyList [7], FloatMatrix [[100], [90], [110], [120]], PyList [2],
            BoolArray [False, False, True, True], IntArray [2, 3]])"
    by code_simp
  have g: "get_price_statistics_st 1 ?s =
     (Inr \<lparr>mean = Some 120, median = Some 120, p5 = Some 120, p95 = Some 120\<rparr>,
      [PyList [7], FloatMatrix [[100], [90], [110], [120]],
       FloatArray [120], FloatArray [120], FloatArray [120]])"
    by code_simp
  have a: "(1::nat) < length ?s" "?s ! 1 = FloatMatrix [[100], [90], [110], [120]]" by simp_all
  from consumers_leave_paths_unchanged[OF a, of 105]
  show ?thesis using t g a by simp
qed

end
